theory Spec2Isabelle
  imports Complex_Main
begin

section \<open>Tables, errors and the outside world\<close>

text \<open>
  A pandas DataFrame, a Parquet file and a DuckDB result are all tables: an ordered list
  of column names and a list of rows. A cell is a string (regulator, target, cell type),
  a number (weight) or missing (SQL NULL, pandas NaN or None). Weights are only stored
  and compared for equality, so a rational stands for the floating-point value.
  The row labels (the pandas index) are left out.
\<close>

datatype cell = Null | Str string | Num rat

record table =
  columns :: "string list"
  rows :: "cell list list"

text \<open>
  Every exception of the source is a value. The first eight are Python's (and pandas')
  exception classes with their message; \<open>BinderException\<close>, \<open>IOException\<close> and
  \<open>InvalidInputException\<close> are DuckDB's. \<open>QuoteInLiteral\<close> is not an exception: the source puts file paths and filter
  values between single quotes without escaping, and a value that contains a single
  quote changes the statement the engine receives. What that statement does depends on
  the remaining text and is outside this model; the constructor only marks such runs.
\<close>

datatype error =
    ValueError string
  | AssertionError string
  | FileNotFoundError string
  | NotADirectoryError string
  | KeyError string
  | TypeError string
  | InvalidIndexError string
  | IndexError string
  | BinderException string
  | IOException string
  | InvalidInputException string
  | QuoteInLiteral string

text \<open>
  The world outside the process: the value of the environment variable GRN_PATH, the
  directories with their listing (in the order \<open>os.listdir\<close> returns it) and the other
  paths that exist. A path that is not a directory either holds a file that the engine
  reads as a table when it is named in a FROM clause (a Parquet file), or something else.
\<close>

datatype entry = Readable table | Opaque

record world =
  env_GRN_PATH :: "string option"
  listing :: "string \<rightharpoonup> string list"
  file_at :: "string \<rightharpoonup> entry"

text \<open>The file-system calls the constructor makes, in the order it makes them.\<close>

datatype io_event = ListDir string | PathExists string

definition os_path_exists :: "world \<Rightarrow> string \<Rightarrow> bool" where
  "os_path_exists w p = (file_at w p \<noteq> None \<or> listing w p \<noteq> None)"

definition os_listdir :: "world \<Rightarrow> string \<Rightarrow> error + string list" where
  "os_listdir w p =
     (case listing w p of
        Some es \<Rightarrow> Inr es
      | None \<Rightarrow>
          (case file_at w p of
             Some _ \<Rightarrow> Inl (NotADirectoryError p)
           | None \<Rightarrow> Inl (FileNotFoundError p)))"

definition startswith :: "string \<Rightarrow> string \<Rightarrow> bool" where
  "startswith s pre = (take (length pre) s = pre)"

definition endswith :: "string \<Rightarrow> string \<Rightarrow> bool" where
  "endswith s suf = (length suf \<le> length s \<and> drop (length s - length suf) s = suf)"

text \<open>
  \<open>str.lower\<close> on the ASCII letters. (Python lower-cases other letters too; none of them
  becomes a character of \<open>.parquet\<close>, the only text a lowered string is compared with.)
\<close>

definition lower_char :: "char \<Rightarrow> char" where
  "lower_char c =
     (if (65::nat) \<le> of_char c \<and> of_char c \<le> (90::nat)
      then char_of (of_char c + (32::nat)) else c)"

definition lower :: "string \<Rightarrow> string" where
  "lower s = map lower_char s"

text \<open>\<open>os.path.join\<close> of posixpath: an absolute component discards what precedes it.\<close>

definition path_join2 :: "string \<Rightarrow> string \<Rightarrow> string" where
  "path_join2 path b =
     (if startswith b ''/'' then b
      else if path = [] \<or> endswith path ''/'' then path @ b
      else path @ ''/'' @ b)"

definition os_path_join :: "string \<Rightarrow> string list \<Rightarrow> string" where
  "os_path_join a ps = foldl path_join2 a ps"

section \<open>The query engine\<close>

definition bind_e :: "error + 'a \<Rightarrow> ('a \<Rightarrow> error + 'b) \<Rightarrow> error + 'b" where
  "bind_e r f = (case r of Inl e \<Rightarrow> Inl e | Inr x \<Rightarrow> f x)"

text \<open>The results of a list of steps, or the first error among them.\<close>

fun collect :: "(error + 'a) list \<Rightarrow> error + 'a list" where
  "collect [] = Inr []"
| "collect (r # rs) =
     (case r of
        Inl e \<Rightarrow> Inl e
      | Inr x \<Rightarrow> (case collect rs of Inl e \<Rightarrow> Inl e | Inr xs \<Rightarrow> Inr (x # xs)))"

fun index_of :: "'a \<Rightarrow> 'a list \<Rightarrow> nat option" where
  "index_of x [] = None"
| "index_of x (y # ys) = (if x = y then Some 0 else map_option Suc (index_of x ys))"

definition cell_at :: "cell list \<Rightarrow> nat \<Rightarrow> cell" where
  "cell_at r i = (if i < length r then r ! i else Null)"

definition quote :: char where
  "quote = CHR 0x27"

text \<open>
  \<open>SELECT * FROM '<file>'\<close>: the table stored at the path. The path stands between
  single quotes in the statement.
\<close>

definition scan_file :: "world \<Rightarrow> string \<Rightarrow> error + table" where
  "scan_file w f =
     (if quote \<in> set f then Inl (QuoteInLiteral f)
      else case file_at w f of
             Some (Readable t) \<Rightarrow> Inr t
           | _ \<Rightarrow> Inl (IOException f))"

text \<open>
  \<open>... WHERE <col> = '<v>'\<close>: the rows whose cell in column \<open>col\<close> is the string \<open>v\<close>.
  A missing cell equals nothing. The statement does not bind when the table has no such
  column.
\<close>

definition select_where :: "string \<Rightarrow> string \<Rightarrow> table \<Rightarrow> error + table" where
  "select_where col v t =
     (if quote \<in> set v then Inl (QuoteInLiteral v)
      else case index_of col (columns t) of
             None \<Rightarrow> Inl (BinderException col)
           | Some i \<Rightarrow> Inr (t\<lparr>rows := filter (\<lambda>r. cell_at r i = Str v) (rows t)\<rparr>))"

text \<open>\<open>SELECT DISTINCT <col> FROM ...\<close>: the distinct cells of one column.\<close>

definition select_distinct :: "string \<Rightarrow> table \<Rightarrow> error + table" where
  "select_distinct col t =
     (case index_of col (columns t) of
        None \<Rightarrow> Inl (BinderException col)
      | Some i \<Rightarrow> Inr \<lparr>columns = [col], rows = remdups (map (\<lambda>r. [cell_at r i]) (rows t))\<rparr>)"

text \<open>
  \<open>s1 UNION s2 UNION ...\<close> of one or more SELECTs. A single SELECT is the statement
  itself; its rows are returned as they are. Two or more are combined by SQL's UNION,
  which (unlike UNION ALL) returns every distinct row once: the columns are matched by
  position and named after the first SELECT, and the statement does not bind when the
  SELECTs differ in their number of columns. SQL leaves the order of the rows of a
  UNION open; the model lists them in the order of \<open>remdups\<close>, and the theorems below
  speak of membership, of counts and of lengths only where a UNION is involved.
\<close>

definition sql_union :: "table \<Rightarrow> table list \<Rightarrow> error + table" where
  "sql_union t ts =
     (if ts = [] then Inr t
      else if list_all (\<lambda>u. length (columns u) = length (columns t)) ts
      then Inr \<lparr>columns = columns t, rows = remdups (concat (map rows (t # ts)))\<rparr>
      else Inl (BinderException ''Set operations can only apply to expressions with the same number of result columns''))"

text \<open>
  The statement \<open>" UNION ".join([...])\<close> of a list of SELECTs, given their results. The
  join of no SELECT is the empty text, which is no statement; the source guards every
  such query with \<open>len(...) > 0\<close>, so this case is never run.
\<close>

definition run_union :: "table list \<Rightarrow> error + table" where
  "run_union ts =
     (case ts of
        [] \<Rightarrow> Inl (InvalidInputException ''No statement to run'')
      | t # rest \<Rightarrow> sql_union t rest)"

text \<open>
  \<open>duckdb.query(" UNION ".join([f"SELECT * FROM {file} ..." for file in files_formatted])).df()\<close>;
  \<open>sel\<close> is what follows the FROM clause.
\<close>

definition union_query :: "world \<Rightarrow> (table \<Rightarrow> error + table) \<Rightarrow> string list \<Rightarrow> error + table" where
  "union_query w sel fs =
     bind_e (collect (map (\<lambda>f. bind_e (scan_file w f) sel) fs)) run_union"

text \<open>
  \<open>pd.DataFrame()\<close>, and \<open>pd.concat([a, b])\<close>: the columns of \<open>a\<close>, then those of \<open>b\<close>
  that \<open>a\<close> lacks; the rows of \<open>a\<close>, then those of \<open>b\<close>, each laid out by column name
  with a missing cell where its frame has no such column.
\<close>

definition empty_frame :: table where
  "empty_frame = \<lparr>columns = [], rows = []\<rparr>"

definition relabel :: "string list \<Rightarrow> string list \<Rightarrow> cell list \<Rightarrow> cell list" where
  "relabel old new r =
     map (\<lambda>c. case index_of c old of None \<Rightarrow> Null | Some i \<Rightarrow> cell_at r i) new"

definition pd_concat :: "table \<Rightarrow> table \<Rightarrow> table" where
  "pd_concat a b =
     (let cols = columns a @ filter (\<lambda>c. \<not> (c \<in> set (columns a))) (columns b)
      in \<lparr>columns = cols,
          rows = map (relabel (columns a) cols) (rows a) @ map (relabel (columns b) cols) (rows b)\<rparr>)"

section \<open>LightNetwork\<close>

record network =
  files :: "string list"
  df :: "table option"

definition not_found_msg :: string where
  "not_found_msg = ''Network data files not found. Try checking: '' @ [CHR 0x0A] @
     ''- pereggrn_networks.load_grn_metadata() or pereggrn_networks.list_subnetworks() for network names, '' @ [CHR 0x0A] @
     ''- pereggrn_networks.debug_grn_location() or pereggrn_networks.set_grn_path() for the path to the collection.''"

text \<open>
  \<open>list_subnetworks\<close>: the entries of \<open><GRN_PATH>/<grn_name>/networks\<close> that do not start
  with a dot. A missing variable (KeyError) and a missing directory are reported as
  FileNotFoundError; any other error of \<open>os.listdir\<close> passes through. The variable is
  read before the directory is listed.
\<close>

definition list_subnetworks :: "world \<Rightarrow> string \<Rightarrow> io_event list \<times> (error + string list)" where
  "list_subnetworks w grn_name =
     (case env_GRN_PATH w of
        None \<Rightarrow> ([], Inl (FileNotFoundError not_found_msg))
      | Some base \<Rightarrow>
          (let d = os_path_join base [grn_name, ''networks''] in
           (case os_listdir w d of
              Inl (FileNotFoundError _) \<Rightarrow> ([ListDir d], Inl (FileNotFoundError not_found_msg))
            | Inl e \<Rightarrow> ([ListDir d], Inl e)
            | Inr es \<Rightarrow> ([ListDir d], Inr (filter (\<lambda>f. \<not> startswith f ''.'') es)))))"

text \<open>
  Lines 37 to 40 of the constructor: the files of the named source are appended to the
  explicit ones. The comprehension reads GRN_PATH once per subnetwork name, so an unset
  variable raises KeyError only when there is a name to join.
\<close>

definition resolve_files ::
  "world \<Rightarrow> string option \<Rightarrow> string list \<Rightarrow> string list \<Rightarrow> io_event list \<times> (error + string list)" where
  "resolve_files w grn_name subnetwork_names fs =
     (case grn_name of
        None \<Rightarrow> ([], Inr fs)
      | Some g \<Rightarrow>
          (case (if length subnetwork_names = 0 then list_subnetworks w g
                 else ([], Inr subnetwork_names)) of
             (tr, Inl e) \<Rightarrow> (tr, Inl e)
           | (tr, Inr names) \<Rightarrow>
               (if names = [] then (tr, Inr (fs @ []))
                else case env_GRN_PATH w of
                       None \<Rightarrow> (tr, Inl (KeyError ''GRN_PATH''))
                     | Some base \<Rightarrow>
                         (tr, Inr (fs @ map (\<lambda>s. os_path_join base [g, ''networks'', s]) names)))))"

text \<open>
  Lines 43 to 45: the assertions on the in-memory table. \<open>df.columns[0:3] == [...]\<close>
  compares element by element and raises ValueError itself when the slice has fewer than
  three names.
\<close>

definition check_df :: "table \<Rightarrow> error option" where
  "check_df d =
     (let cols = columns d in
      if length (take 3 cols) \<noteq> 3 then Some (ValueError ''Lengths must match to compare'')
      else if take 3 cols \<noteq> [''regulator'', ''target'', ''weight'']
      then Some (AssertionError (''Columns must have names 'regulator', 'target', 'weight'' @ [quote]))
      else if \<not> (length cols = 3 \<or> cols ! 3 = ''cell_type'')
      then Some (AssertionError ''If there are 4 columns, the 4th must be 'cell_type'.'')
      else None)"

text \<open>Lines 48 to 50: the loop stops at the first path that does not exist.\<close>

fun check_exists :: "world \<Rightarrow> string list \<Rightarrow> io_event list \<times> error option" where
  "check_exists w [] = ([], None)"
| "check_exists w (f # fs) =
     (if \<not> os_path_exists w f
      then ([PathExists f], Some (FileNotFoundError (''File '' @ f @ '' does not exist.'')))
      else (case check_exists w fs of (tr, r) \<Rightarrow> (PathExists f # tr, r)))"

text \<open>
  The constructor \<open>LightNetwork.__init__\<close>. It returns the file-system calls it made and
  either the exception it raised or the new instance. \<open>subnetwork_names\<close> is a list by
  its type, so the first assertion holds; an assert statement raises, as it does unless
  the interpreter runs with assertions switched off.
\<close>

definition LightNetwork ::
  "world \<Rightarrow> string option \<Rightarrow> string list \<Rightarrow> string list \<Rightarrow> table option
     \<Rightarrow> io_event list \<times> (error + network)" where
  "LightNetwork w grn_name subnetwork_names fs d =
     (if grn_name = None \<and> length subnetwork_names > 0
      then ([], Inl (ValueError ''Cannot find subnetworks unless 'grn_name' is specified.''))
      else
        (case resolve_files w grn_name subnetwork_names fs of
           (tr, Inl e) \<Rightarrow> (tr, Inl e)
         | (tr, Inr fs') \<Rightarrow>
             (if length fs' = 0 \<and> d = None
              then (tr, Inl (ValueError ''Please provide at least one of 'grn_name' or 'files' of 'df'.''))
              else
                (case (case d of None \<Rightarrow> None | Some t \<Rightarrow> check_df t) of
                   Some e \<Rightarrow> (tr, Inl e)
                 | None \<Rightarrow>
                     (case check_exists w fs' of
                        (tr', Some e) \<Rightarrow> (tr @ tr', Inl e)
                      | (tr', None) \<Rightarrow> (tr @ tr', Inr \<lparr>files = fs', df = d\<rparr>))))))"

text \<open>\<open>copy\<close> calls the constructor again with the instance's own files and table.\<close>

definition copy :: "world \<Rightarrow> network \<Rightarrow> io_event list \<times> (error + network)" where
  "copy w self = LightNetwork w None [] (files self) (df self)"

text \<open>
  The three row queries have the same body: the UNION over the files when there are
  any, the query on the in-memory table when there is one, and \<open>pd.concat\<close> of the two.
\<close>

definition get_all :: "world \<Rightarrow> network \<Rightarrow> error + table" where
  "get_all w self =
     bind_e (if length (files self) > 0 then union_query w Inr (files self) else Inr empty_frame)
       (\<lambda>results_from_parquet.
          bind_e (case df self of None \<Rightarrow> Inr empty_frame | Some d \<Rightarrow> Inr d)
            (\<lambda>results_from_memory. Inr (pd_concat results_from_parquet results_from_memory)))"

definition get_regulators :: "world \<Rightarrow> network \<Rightarrow> string \<Rightarrow> error + table" where
  "get_regulators w self target =
     bind_e (if length (files self) > 0
             then union_query w (select_where ''target'' target) (files self)
             else Inr empty_frame)
       (\<lambda>results_from_parquet.
          bind_e (case df self of
                    None \<Rightarrow> Inr empty_frame
                  | Some d \<Rightarrow> select_where ''target'' target d)
            (\<lambda>results_from_memory. Inr (pd_concat results_from_parquet results_from_memory)))"

definition get_targets :: "world \<Rightarrow> network \<Rightarrow> string \<Rightarrow> error + table" where
  "get_targets w self regulator =
     bind_e (if length (files self) > 0
             then union_query w (select_where ''regulator'' regulator) (files self)
             else Inr empty_frame)
       (\<lambda>results_from_parquet.
          bind_e (case df self of
                    None \<Rightarrow> Inr empty_frame
                  | Some d \<Rightarrow> select_where ''regulator'' regulator d)
            (\<lambda>results_from_memory. Inr (pd_concat results_from_parquet results_from_memory)))"

text \<open>
  \<open>get_num_edges\<close>: COUNT(*) of the same UNION as in \<open>get_all\<close>, plus COUNT(*) of the
  in-memory table.
\<close>

definition get_num_edges :: "world \<Rightarrow> network \<Rightarrow> error + int" where
  "get_num_edges w self =
     bind_e (if length (files self) > 0
             then bind_e (union_query w Inr (files self)) (\<lambda>u. Inr (int (length (rows u))))
             else Inr 0)
       (\<lambda>results_from_parquet.
          bind_e (case df self of None \<Rightarrow> Inr 0 | Some d \<Rightarrow> Inr (int (length (rows d))))
            (\<lambda>results_from_memory. Inr (results_from_parquet + results_from_memory)))"

text \<open>
  \<open>get_all_one_field\<close>. Each file is first probed for its columns
  (\<open>SELECT * FROM <file> WHERE 1=0\<close>) and kept when it has the field; the kept files are
  queried with \<open>SELECT DISTINCT\<close> under a UNION. The in-memory table is queried when it
  has the field. The result is the Python set of the values of the two frames.
\<close>

definition column_values :: "string \<Rightarrow> table \<Rightarrow> error + cell list" where
  "column_values field t =
     (case index_of field (columns t) of
        None \<Rightarrow> Inl (KeyError field)
      | Some i \<Rightarrow> Inr (map (\<lambda>r. cell_at r i) (rows t)))"

definition get_all_one_field :: "world \<Rightarrow> network \<Rightarrow> string \<Rightarrow> error + cell set" where
  "get_all_one_field w self field =
     (if \<not> (field \<in> {''regulator'', ''target'', ''cell_type''})
      then Inl (AssertionError '' Can only get unique vals for 'regulator', 'target', or 'cell_type' '')
      else
        bind_e (if length (files self) > 0
                then bind_e (collect (map (scan_file w) (files self)))
                       (\<lambda>ts. case filter (\<lambda>t. field \<in> set (columns t)) ts of
                                [] \<Rightarrow> Inr \<lparr>columns = [field], rows = []\<rparr>
                              | t # rest \<Rightarrow>
                                  bind_e (collect (map (select_distinct field) (t # rest)))
                                    run_union)
                else Inr \<lparr>columns = [field], rows = []\<rparr>)
          (\<lambda>results_from_parquet.
             bind_e (case df self of
                       None \<Rightarrow> Inr \<lparr>columns = [field], rows = []\<rparr>
                     | Some d \<Rightarrow>
                         if field \<in> set (columns d) then select_distinct field d
                         else Inr \<lparr>columns = [field], rows = []\<rparr>)
               (\<lambda>results_from_memory.
                  bind_e (column_values field
                            (pd_concat results_from_parquet results_from_memory))
                    (\<lambda>vs. Inr (set (remdups vs))))))"

definition get_all_regulators :: "world \<Rightarrow> network \<Rightarrow> error + cell set" where
  "get_all_regulators w self = get_all_one_field w self ''regulator''"

text \<open>
  \<open>save\<close>: the extension is checked before anything is read. On success the result is
  the path and the frame handed to \<open>to_parquet\<close>.
\<close>

definition save :: "world \<Rightarrow> network \<Rightarrow> string \<Rightarrow> error + string \<times> table" where
  "save w self filename =
     (if \<not> endswith (lower filename) ''.parquet''
      then Inl (ValueError ''Filename must end with .parquet.'')
      else bind_e (get_all w self) (\<lambda>t. Inr (filename, t)))"

section \<open>validate_grn\<close>

definition EXPECTED_GRN_COLNAMES :: "string list" where
  "EXPECTED_GRN_COLNAMES = [''regulator'', ''target'', ''weight'']"

text \<open>
  \<open>grn_df[:, "regulator"]\<close> on a pandas DataFrame. Square brackets with a pair of a
  slice and a name are not \<open>.loc\<close>: the pair is looked up as one column label. No
  column of a table has such a label, and pandas raises whatever the frame holds:
  InvalidIndexError (KeyError under interpreters that can hash a slice).
\<close>

definition frame_getitem_slice :: "table \<Rightarrow> string \<Rightarrow> error + cell list" where
  "frame_getitem_slice d c =
     Inl (InvalidIndexError (''(slice(None, None, None), '' @ [quote] @ c @ [quote] @ '')''))"

text \<open>
  \<open>validate_grn\<close>. Without a table it calls \<open>load_grn_by_subnetwork\<close> with a keyword that
  function does not have, which is a TypeError. The argument is a pandas DataFrame, so
  the assertion on its type holds.
\<close>

definition validate_grn :: "string \<Rightarrow> string \<Rightarrow> table option \<Rightarrow> error + bool" where
  "validate_grn grn_name subnetwork_name grn_df =
     bind_e (case grn_df of
               None \<Rightarrow> Inl (TypeError (''load_grn_by_subnetwork() got an unexpected keyword argument 'do_validate'' @ [quote]))
             | Some d \<Rightarrow> Inr d)
       (\<lambda>d. bind_e (frame_getitem_slice d ''regulator'')
          (\<lambda>regulators. bind_e (frame_getitem_slice d ''target'')
             (\<lambda>targets.
                if length (remdups regulators) > length (remdups targets)
                then Inl (ValueError (grn_name @ '' '' @ subnetwork_name @
                            '' has more regulators than targets!'' @ [CHR 0x0A]))
                else if length (columns d) < 3 then Inl (IndexError ''index out of bounds'')
                else if take 3 (columns d) \<noteq> EXPECTED_GRN_COLNAMES then Inl (AssertionError [])
                else Inr True)))"

section \<open>Vocabulary of the properties\<close>

text \<open>
  The column contract of the specification: the columns are regulator, target, weight,
  or these three followed by cell_type (and then anything).
\<close>

definition schema_contract :: "string list \<Rightarrow> bool" where
  "schema_contract cols =
     (cols = [''regulator'', ''target'', ''weight''] \<or>
      take 4 cols = [''regulator'', ''target'', ''weight'', ''cell_type''])"

text \<open>
  A file is readable when the engine reads a table from its path; \<open>table_of\<close> is that
  table. The constituents of a network are the tables of its files, in list order,
  followed by the in-memory table when there is one; \<open>all_rows\<close> are their rows.
\<close>

definition readable :: "world \<Rightarrow> string \<Rightarrow> bool" where
  "readable w f = (case scan_file w f of Inl _ \<Rightarrow> False | Inr _ \<Rightarrow> True)"

definition table_of :: "world \<Rightarrow> string \<Rightarrow> table" where
  "table_of w f = (case scan_file w f of Inl _ \<Rightarrow> empty_frame | Inr t \<Rightarrow> t)"

definition constituents :: "world \<Rightarrow> network \<Rightarrow> table list" where
  "constituents w self =
     map (table_of w) (files self) @ (case df self of None \<Rightarrow> [] | Some d \<Rightarrow> [d])"

definition all_rows :: "world \<Rightarrow> network \<Rightarrow> cell list list" where
  "all_rows w self = concat (map rows (constituents w self))"

text \<open>
  A table is well formed when its column names are distinct and every row has one cell
  per column. A network is uniform with columns \<open>cols\<close> when its files are readable and
  every constituent is a well-formed table with exactly these columns.
\<close>

definition wf_table :: "table \<Rightarrow> bool" where
  "wf_table t = (distinct (columns t) \<and> list_all (\<lambda>r. length r = length (columns t)) (rows t))"

definition uniform :: "world \<Rightarrow> network \<Rightarrow> string list \<Rightarrow> bool" where
  "uniform w self cols =
     (list_all (readable w) (files self) \<and>
      list_all (\<lambda>t. columns t = cols \<and> wf_table t) (constituents w self))"

text \<open>
  How often a row comes back from the UNION over the files, given the rows of each file:
  as often as the file holds it when there is one file, and once when it occurs in any
  of two or more files. \<open>union_rows\<close> are the rows themselves.
\<close>

definition union_multiplicity :: "cell list list list \<Rightarrow> cell list \<Rightarrow> nat" where
  "union_multiplicity parts r =
     (case parts of
        [rs] \<Rightarrow> count_list rs r
      | _ \<Rightarrow> (if list_ex (\<lambda>rs. r \<in> set rs) parts then 1 else 0))"

definition union_rows :: "cell list list list \<Rightarrow> cell list list" where
  "union_rows parts = (case parts of [rs] \<Rightarrow> rs | _ \<Rightarrow> remdups (concat parts))"

text \<open>The values of one column of a table; none when the table lacks the column.\<close>

definition column_set :: "string \<Rightarrow> table \<Rightarrow> cell set" where
  "column_set field t =
     (case index_of field (columns t) of
        None \<Rightarrow> {}
      | Some i \<Rightarrow> set (map (\<lambda>r. cell_at r i) (rows t)))"

section \<open>Example data\<close>

text \<open>
  The scenario of the specification: source \<open>testsrc\<close> with the partitions \<open>a\<close> and \<open>b\<close>
  and an in-memory table, extended by a second copy of \<open>a\<close> outside the source, a
  partition with a cell_type column, and a file whose columns are not the contracted
  ones. In \<open>world_gone\<close> partition \<open>b\<close> has been deleted.
\<close>

definition contract_columns :: "string list" where
  "contract_columns = [''regulator'', ''target'', ''weight'']"

definition table_a :: table where
  "table_a = \<lparr>columns = contract_columns, rows = [[Str ''TF1'', Str ''G1'', Num (1/2)]]\<rparr>"

definition table_b :: table where
  "table_b = \<lparr>columns = contract_columns, rows = [[Str ''TF2'', Str ''G1'', Num (9/10)]]\<rparr>"

definition table_m :: table where
  "table_m = \<lparr>columns = contract_columns, rows = [[Str ''TF3'', Str ''G2'', Num 1]]\<rparr>"

definition table_typed :: table where
  "table_typed = \<lparr>columns = contract_columns @ [''cell_type''],
                  rows = [[Str ''TF4'', Str ''G1'', Num 1, Str ''liver'']]\<rparr>"

definition table_bad :: table where
  "table_bad = \<lparr>columns = [''source'', ''gene'', ''score''],
                rows = [[Str ''TF1'', Str ''G1'', Num (1/2)]]\<rparr>"

definition path_a :: string where
  "path_a = ''/grn/testsrc/networks/a.parquet''"

definition path_b :: string where
  "path_b = ''/grn/testsrc/networks/b.parquet''"

definition path_mirror :: string where
  "path_mirror = ''/backup/a.parquet''"

definition path_typed :: string where
  "path_typed = ''/data/liver.parquet''"

definition path_bad :: string where
  "path_bad = ''/data/bad.parquet''"

definition world_ex :: world where
  "world_ex = \<lparr>env_GRN_PATH = Some ''/grn'',
      listing = [''/grn/testsrc/networks'' \<mapsto> [''a.parquet'', ''b.parquet'']],
      file_at = [path_a \<mapsto> Readable table_a, path_b \<mapsto> Readable table_b,
                 path_mirror \<mapsto> Readable table_a, path_typed \<mapsto> Readable table_typed,
                 path_bad \<mapsto> Readable table_bad]\<rparr>"

definition world_gone :: world where
  "world_gone = world_ex\<lparr>listing := [''/grn/testsrc/networks'' \<mapsto> [''a.parquet'']],
       file_at := [path_a \<mapsto> Readable table_a]\<rparr>"

section \<open>Evaluation rules and auxiliary lemmas\<close>

lemmas ex_defs = contract_columns_def table_a_def table_b_def table_m_def table_typed_def
  table_bad_def path_a_def path_b_def path_mirror_def path_typed_def path_bad_def
  world_ex_def world_gone_def

lemmas ctor_defs = LightNetwork_def resolve_files_def list_subnetworks_def os_listdir_def
  os_path_join_def path_join2_def startswith_def endswith_def os_path_exists_def check_df_def
  copy_def

lemmas q_defs = get_all_def get_num_edges_def get_regulators_def get_targets_def bind_e_def
  union_query_def run_union_def scan_file_def quote_def sql_union_def pd_concat_def relabel_def cell_at_def
  empty_frame_def select_where_def readable_def table_of_def constituents_def wf_table_def
  uniform_def

subsection \<open>The constructor\<close>

lemma check_exists_all:
  "list_all (os_path_exists w) fs \<Longrightarrow> check_exists w fs = (map PathExists fs, None)"
  by (induction fs) simp_all

lemma check_exists_missing:
  "\<not> list_all (os_path_exists w) fs \<Longrightarrow>
   \<exists>pre g post. fs = pre @ g # post \<and> list_all (os_path_exists w) pre \<and> \<not> os_path_exists w g \<and>
     check_exists w fs =
       (map PathExists (pre @ [g]), Some (FileNotFoundError (''File '' @ g @ '' does not exist.'')))"
proof (induction fs)
  case Nil
  then show ?case by simp
next
  case (Cons f fs)
  show ?case
  proof (cases "os_path_exists w f")
    case False
    then have "f # fs = [] @ f # fs \<and> list_all (os_path_exists w) [] \<and> \<not> os_path_exists w f \<and>
        check_exists w (f # fs) =
          (map PathExists ([] @ [f]), Some (FileNotFoundError (''File '' @ f @ '' does not exist.'')))"
      by simp
    then show ?thesis by blast
  next
    case True
    with Cons.prems have "\<not> list_all (os_path_exists w) fs" by simp
    from Cons.IH [OF this] obtain pre g post where
      h: "fs = pre @ g # post" "list_all (os_path_exists w) pre" "\<not> os_path_exists w g"
         "check_exists w fs =
            (map PathExists (pre @ [g]), Some (FileNotFoundError (''File '' @ g @ '' does not exist.'')))"
      by blast
    from h True have "f # fs = (f # pre) @ g # post \<and> list_all (os_path_exists w) (f # pre) \<and>
        \<not> os_path_exists w g \<and>
        check_exists w (f # fs) =
          (map PathExists ((f # pre) @ [g]), Some (FileNotFoundError (''File '' @ g @ '' does not exist.'')))"
      by simp
    then show ?thesis by blast
  qed
qed

lemma check_exists_None:
  "check_exists w fs = (tr, None) \<Longrightarrow> list_all (os_path_exists w) fs"
  using check_exists_missing [of w fs] by (cases "list_all (os_path_exists w) fs") auto

lemma check_df_contract: "(check_df t = None) = schema_contract (columns t)"
proof -
  obtain cols where c: "columns t = cols" by simp
  show ?thesis
  proof (cases "length cols < 3")
    case True
    then show ?thesis using c by (auto simp: check_df_def schema_contract_def Let_def)
  next
    case False
    then obtain a b c' rest where "cols = a # b # c' # rest"
      by (metis Suc_length_conv length_0_conv list.exhaust not_less_eq numeral_3_eq_3 zero_less_Suc)
    then show ?thesis using c
      by (cases rest) (auto simp: check_df_def schema_contract_def Let_def)
  qed
qed

lemma check_df_error_kind:
  "check_df t = Some e \<Longrightarrow>
     (if length (columns t) < 3 then e = ValueError ''Lengths must match to compare''
      else \<exists>msg. e = AssertionError msg)"
  by (auto simp: check_df_def Let_def split: if_splits)

lemma check_df_Some:
  "\<not> schema_contract (columns t) \<Longrightarrow> \<exists>e. check_df t = Some e"
  using check_df_contract [of t] by (cases "check_df t") auto

lemma LightNetwork_after_guard:
  assumes "\<not> (grn_name = None \<and> subnetwork_names \<noteq> [])"
    and "resolve_files w grn_name subnetwork_names fs = (tr, Inr fs')"
  shows "LightNetwork w grn_name subnetwork_names fs d =
     (if fs' = [] \<and> d = None
      then (tr, Inl (ValueError ''Please provide at least one of 'grn_name' or 'files' of 'df'.''))
      else
        (case (case d of None \<Rightarrow> None | Some t \<Rightarrow> check_df t) of
           Some e \<Rightarrow> (tr, Inl e)
         | None \<Rightarrow>
             (case check_exists w fs' of
                (tr', Some e) \<Rightarrow> (tr @ tr', Inl e)
              | (tr', None) \<Rightarrow> (tr @ tr', Inr \<lparr>files = fs', df = d\<rparr>))))"
  using assms by (auto simp: LightNetwork_def)

lemma LightNetwork_result:
  assumes "LightNetwork w0 grn_name subnetwork_names fs d = (tr0, Inr self)"
  shows "(files self \<noteq> [] \<or> df self \<noteq> None)
       \<and> (case df self of None \<Rightarrow> None | Some t \<Rightarrow> check_df t) = None
       \<and> list_all (os_path_exists w0) (files self)"
  using assms
  by (auto simp: LightNetwork_def split: if_splits prod.splits sum.splits option.splits
      dest: check_exists_None)

subsection \<open>The queries\<close>

lemma scan_readable: "readable w f \<Longrightarrow> scan_file w f = Inr (table_of w f)"
  by (simp add: readable_def table_of_def split: sum.splits)

lemma collect_map_Inr:
  "list_all (\<lambda>x. f x = Inr (g x)) xs \<Longrightarrow> collect (map f xs) = Inr (map g xs)"
  by (induction xs) simp_all

lemma index_of_nth:
  "distinct xs \<Longrightarrow> i < length xs \<Longrightarrow> index_of (xs ! i) xs = Some i"
proof (induction xs arbitrary: i)
  case Nil
  then show ?case by simp
next
  case (Cons x xs)
  show ?case
  proof (cases i)
    case 0
    then show ?thesis by simp
  next
    case (Suc j)
    with Cons.prems have "j < length xs" "distinct xs" "xs ! j \<noteq> x" by auto
    with Cons.IH [of j] Suc show ?thesis by simp
  qed
qed

lemma index_of_None: "(index_of x xs = None) = (x \<notin> set xs)"
  by (induction xs) auto

lemma relabel_id:
  assumes "distinct cols" "length r = length cols"
  shows "relabel cols cols r = r"
proof (rule nth_equalityI)
  show "length (relabel cols cols r) = length r"
    using assms by (simp add: relabel_def)
next
  fix i assume "i < length (relabel cols cols r)"
  then have i: "i < length cols" by (simp add: relabel_def)
  then show "relabel cols cols r ! i = r ! i"
    using assms index_of_nth [OF assms(1) i] by (simp add: relabel_def cell_at_def)
qed

lemma map_relabel_id:
  assumes "distinct cols" "list_all (\<lambda>r. length r = length cols) rs"
  shows "map (relabel cols cols) rs = rs"
  using assms by (induction rs) (simp_all add: relabel_id)

lemma pd_concat_same:
  assumes "columns a = cols" "columns b = cols" "distinct cols"
    "list_all (\<lambda>r. length r = length cols) (rows a)"
    "list_all (\<lambda>r. length r = length cols) (rows b)"
  shows "pd_concat a b = \<lparr>columns = cols, rows = rows a @ rows b\<rparr>"
proof -
  have "filter (\<lambda>c. c \<notin> set cols) cols = []" by (simp add: filter_empty_conv)
  then show ?thesis
    using assms by (simp add: pd_concat_def Let_def map_relabel_id)
qed

lemma pd_concat_empty_left:
  assumes "distinct (columns b)" "list_all (\<lambda>r. length r = length (columns b)) (rows b)"
  shows "pd_concat empty_frame b = \<lparr>columns = columns b, rows = rows b\<rparr>"
  using assms by (simp add: pd_concat_def empty_frame_def Let_def map_relabel_id)

lemma pd_concat_empty_right:
  assumes "distinct (columns a)" "list_all (\<lambda>r. length r = length (columns a)) (rows a)"
  shows "pd_concat a empty_frame = \<lparr>columns = columns a, rows = rows a\<rparr>"
  using assms by (simp add: pd_concat_def empty_frame_def Let_def map_relabel_id)

lemma count_list_remdups: "count_list (remdups xs) x = (if x \<in> set xs then 1 else 0)"
proof (induction xs)
  case Nil
  then show ?case by simp
next
  case (Cons a xs)
  then show ?case by (cases "a \<in> set xs") auto
qed

lemma count_list_filter: "count_list (filter P xs) x = (if P x then count_list xs x else 0)"
  by (induction xs) auto

lemma count_list_app: "count_list (xs @ ys) r = count_list xs r + count_list ys r"
  by (induction xs) simp_all

lemma collect_scan:
  assumes "list_all (readable w) fs"
    and "list_all (\<lambda>f. sel (table_of w f) = Inr (g (table_of w f))) fs"
  shows "collect (map (\<lambda>f. bind_e (scan_file w f) sel) fs) = Inr (map (\<lambda>f. g (table_of w f)) fs)"
proof -
  have "list_all (\<lambda>f. bind_e (scan_file w f) sel = Inr (g (table_of w f))) fs"
    using assms by (auto simp: list_all_iff bind_e_def scan_readable)
  then show ?thesis by (rule collect_map_Inr)
qed

lemma collect_scan_tables:
  "list_all (readable w) fs \<Longrightarrow> collect (map (scan_file w) fs) = Inr (map (table_of w) fs)"
  by (rule collect_map_Inr) (simp add: list_all_iff scan_readable)

lemma union_query_Inr_ok:
  assumes "list_all (readable w) (f # rest)"
    and "list_all (\<lambda>g. length (columns (table_of w g)) = length (columns (table_of w f))) rest"
  shows "\<exists>u. union_query w Inr (f # rest) = Inr u"
proof -
  have "collect (map (\<lambda>f. bind_e (scan_file w f) Inr) (f # rest)) =
      Inr (map (\<lambda>f. table_of w f) (f # rest))"
    using assms(1) by (intro collect_scan) (simp_all add: list_all_iff)
  moreover have "list_all (\<lambda>u. length (columns u) = length (columns (table_of w f)))
      (map (table_of w) rest)"
    using assms(2) by (simp add: list_all_iff)
  ultimately show ?thesis
    by (simp add: union_query_def run_union_def bind_e_def sql_union_def)
qed

lemma get_num_edges_get_all:
  assumes r: "list_all (readable w) (files self)"
    and a: "list_all (\<lambda>f. length (columns (table_of w f)) =
                          length (columns (table_of w (hd (files self))))) (files self)"
  shows "\<exists>t. get_all w self = Inr t \<and> get_num_edges w self = Inr (int (length (rows t)))"
proof (cases "files self")
  case Nil
  then show ?thesis
    by (cases "df self")
       (simp_all add: get_all_def get_num_edges_def bind_e_def pd_concat_def Let_def empty_frame_def)
next
  case (Cons f rest)
  with r a have "\<exists>u. union_query w Inr (f # rest) = Inr u"
    by (intro union_query_Inr_ok) simp_all
  then obtain u where u: "union_query w Inr (files self) = Inr u"
    using Cons by auto
  from Cons have pos: "length (files self) > 0" by simp
  show ?thesis
    using u pos
    by (cases "df self")
       (simp_all add: get_all_def get_num_edges_def bind_e_def pd_concat_def Let_def empty_frame_def)
qed

lemma count_union_rows: "count_list (union_rows parts) r = union_multiplicity parts r"
proof (cases parts)
  case Nil
  then show ?thesis by (simp add: union_rows_def union_multiplicity_def)
next
  case (Cons a rest)
  show ?thesis
  proof (cases rest)
    case Nil
    with Cons show ?thesis by (simp add: union_rows_def union_multiplicity_def)
  next
    case (Cons b rest')
    with \<open>parts = a # rest\<close> show ?thesis
      by (auto simp: union_rows_def union_multiplicity_def count_list_remdups list_ex_iff)
  qed
qed

lemma set_union_rows: "set (union_rows parts) = \<Union> (set ` set parts)"
proof (cases parts)
  case Nil
  then show ?thesis by (simp add: union_rows_def)
next
  case (Cons a rest)
  then show ?thesis by (cases rest) (auto simp: union_rows_def)
qed

lemma union_multiplicity_filter:
  "union_multiplicity (map (filter P) parts) r = (if P r then union_multiplicity parts r else 0)"
proof (cases parts)
  case Nil
  then show ?thesis by (simp add: union_multiplicity_def)
next
  case (Cons a rest)
  then show ?thesis
    by (cases rest) (auto simp: union_multiplicity_def count_list_filter list_ex_iff)
qed

lemma union_multiplicity_filter_map:
  "union_multiplicity (map (\<lambda>f. filter P (g f)) fs) r =
     (if P r then union_multiplicity (map g fs) r else 0)"
  using union_multiplicity_filter [of P "map g fs" r] by (simp add: o_def)

lemma union_query_uniform:
  assumes rd: "list_all (readable w) fs"
    and ne: "fs \<noteq> []"
    and cols: "list_all (\<lambda>f. columns (table_of w f) = cols) fs"
    and sel: "\<And>t. columns t = cols \<Longrightarrow> sel t = Inr (t\<lparr>rows := filter P (rows t)\<rparr>)"
  shows "union_query w sel fs =
     Inr \<lparr>columns = cols, rows = union_rows (map (\<lambda>f. filter P (rows (table_of w f))) fs)\<rparr>"
proof -
  let ?g = "\<lambda>t. t\<lparr>rows := filter P (rows t)\<rparr>"
  have c: "collect (map (\<lambda>f. bind_e (scan_file w f) sel) fs) = Inr (map (\<lambda>f. ?g (table_of w f)) fs)"
    using rd cols sel by (intro collect_scan) (simp_all add: list_all_iff)
  from ne obtain f rest where fs: "fs = f # rest" by (cases fs) auto
  show ?thesis
  proof (cases rest)
    case Nil
    with c fs cols show ?thesis
      by (simp add: union_query_def run_union_def bind_e_def sql_union_def union_rows_def)
  next
    case (Cons f' rest')
    have ar: "list_all (\<lambda>u. length (columns u) = length (columns (?g (table_of w f))))
        (map (\<lambda>f. ?g (table_of w f)) rest)"
      using cols fs by (simp add: list_all_iff)
    have cm: "map rows (map (\<lambda>f. ?g (table_of w f)) rest) =
        map (\<lambda>f. filter P (rows (table_of w f))) rest"
      by simp
    show ?thesis
      using c fs cols ar Cons
      by (simp add: union_query_def run_union_def bind_e_def sql_union_def union_rows_def o_def)
  qed
qed

lemma row_query_uniform:
  assumes u: "uniform w self cols"
    and sel: "\<And>t. columns t = cols \<Longrightarrow> sel t = Inr (t\<lparr>rows := filter P (rows t)\<rparr>)"
  shows "\<exists>t. bind_e (if length (files self) > 0 then union_query w sel (files self)
                      else Inr empty_frame)
               (\<lambda>p. bind_e (case df self of None \<Rightarrow> Inr empty_frame | Some d \<Rightarrow> sel d)
                      (\<lambda>m. Inr (pd_concat p m))) = Inr t
           \<and> rows t = union_rows (map (\<lambda>f. filter P (rows (table_of w f))) (files self)) @
                      (case df self of None \<Rightarrow> [] | Some d \<Rightarrow> filter P (rows d))
           \<and> columns t = (if constituents w self = [] then [] else cols)"
proof -
  let ?parts = "map (\<lambda>f. filter P (rows (table_of w f))) (files self)"
  from u have rd: "list_all (readable w) (files self)"
    and fc: "list_all (\<lambda>f. columns (table_of w f) = cols) (files self)"
    and fw: "list_all (\<lambda>f. wf_table (table_of w f)) (files self)"
    by (simp_all add: uniform_def constituents_def list_all_iff)
  have plen: "list_all (\<lambda>r. length r = length cols) (union_rows ?parts)"
    using fc fw by (auto simp: list_all_iff set_union_rows wf_table_def)
  have dist: "constituents w self \<noteq> [] \<Longrightarrow> distinct cols"
    using u by (cases "constituents w self") (auto simp: uniform_def wf_table_def)
  show ?thesis
  proof (cases "df self")
    case None
    show ?thesis
    proof (cases "files self = []")
      case True
      with None show ?thesis
        by (simp add: bind_e_def pd_concat_def empty_frame_def union_rows_def constituents_def)
    next
      case False
      then have ne: "constituents w self \<noteq> []" by (simp add: constituents_def)
      from union_query_uniform [OF rd False fc sel]
      have q: "union_query w sel (files self) = Inr \<lparr>columns = cols, rows = union_rows ?parts\<rparr>"
        by simp
      have "pd_concat \<lparr>columns = cols, rows = union_rows ?parts\<rparr> empty_frame =
          \<lparr>columns = cols, rows = union_rows ?parts\<rparr>"
        using pd_concat_empty_right [of "\<lparr>columns = cols, rows = union_rows ?parts\<rparr>"]
          dist [OF ne] plen by simp
      with q None False ne show ?thesis by (simp add: bind_e_def)
    qed
  next
    case (Some d)
    then have ne: "constituents w self \<noteq> []" by (simp add: constituents_def)
    from u Some have dc: "columns d = cols" and dw: "wf_table d"
      by (simp_all add: uniform_def constituents_def)
    from sel [OF dc] have sd: "sel d = Inr \<lparr>columns = cols, rows = filter P (rows d)\<rparr>"
      using dc by simp
    from dw dc have dlen: "list_all (\<lambda>r. length r = length cols) (filter P (rows d))"
      by (auto simp: wf_table_def list_all_iff)
    show ?thesis
    proof (cases "files self = []")
      case True
      have "pd_concat empty_frame \<lparr>columns = cols, rows = filter P (rows d)\<rparr> =
          \<lparr>columns = cols, rows = filter P (rows d)\<rparr>"
        using pd_concat_empty_left [of "\<lparr>columns = cols, rows = filter P (rows d)\<rparr>"]
          dist [OF ne] dlen by simp
      with True Some sd ne show ?thesis by (simp add: bind_e_def union_rows_def)
    next
      case False
      from union_query_uniform [OF rd False fc sel]
      have q: "union_query w sel (files self) = Inr \<lparr>columns = cols, rows = union_rows ?parts\<rparr>"
        by simp
      have "pd_concat \<lparr>columns = cols, rows = union_rows ?parts\<rparr>
              \<lparr>columns = cols, rows = filter P (rows d)\<rparr> =
          \<lparr>columns = cols, rows = union_rows ?parts @ filter P (rows d)\<rparr>"
        using pd_concat_same [of "\<lparr>columns = cols, rows = union_rows ?parts\<rparr>" cols
            "\<lparr>columns = cols, rows = filter P (rows d)\<rparr>"] dist [OF ne] plen dlen
        by simp
      with q Some sd False ne show ?thesis by (simp add: bind_e_def)
    qed
  qed
qed

lemma uniform_arity:
  assumes "uniform w self cols"
  shows "list_all (readable w) (files self)"
    and "list_all (\<lambda>f. length (columns (table_of w f)) =
                       length (columns (table_of w (hd (files self))))) (files self)"
proof -
  from assms show "list_all (readable w) (files self)" by (simp add: uniform_def)
  from assms have c: "\<forall>f\<in>set (files self). columns (table_of w f) = cols"
    by (simp add: uniform_def constituents_def list_all_iff)
  show "list_all (\<lambda>f. length (columns (table_of w f)) =
                       length (columns (table_of w (hd (files self))))) (files self)"
  proof (cases "files self")
    case Nil
    then show ?thesis by simp
  next
    case (Cons f rest)
    with c show ?thesis by (simp add: list_all_iff)
  qed
qed

lemma where_query_uniform:
  assumes u: "uniform w self cols"
    and q: "quote \<notin> set v"
    and i: "index_of col cols = Some i"
  shows "\<exists>t. bind_e (if length (files self) > 0
                      then union_query w (select_where col v) (files self)
                      else Inr empty_frame)
               (\<lambda>p. bind_e (case df self of None \<Rightarrow> Inr empty_frame
                             | Some d \<Rightarrow> select_where col v d)
                      (\<lambda>m. Inr (pd_concat p m))) = Inr t
           \<and> (\<forall>r. count_list (rows t) r =
                 (if cell_at r i = Str v
                  then union_multiplicity (map (\<lambda>f. rows (table_of w f)) (files self)) r +
                       (case df self of None \<Rightarrow> 0 | Some d \<Rightarrow> count_list (rows d) r)
                  else 0))
           \<and> set (rows t) = {r \<in> set (all_rows w self). cell_at r i = Str v}"
proof -
  let ?P = "\<lambda>r. cell_at r i = Str v"
  have sel: "\<And>t. columns t = cols \<Longrightarrow>
      select_where col v t = Inr (t\<lparr>rows := filter ?P (rows t)\<rparr>)"
    using q i by (simp add: select_where_def)
  from row_query_uniform [OF u sel] obtain t where
    g: "bind_e (if length (files self) > 0
                      then union_query w (select_where col v) (files self)
                      else Inr empty_frame)
               (\<lambda>p. bind_e (case df self of None \<Rightarrow> Inr empty_frame
                             | Some d \<Rightarrow> select_where col v d)
                      (\<lambda>m. Inr (pd_concat p m))) = Inr t" and
    rw: "rows t = union_rows (map (\<lambda>f. filter ?P (rows (table_of w f))) (files self)) @
                  (case df self of None \<Rightarrow> [] | Some d \<Rightarrow> filter ?P (rows d))"
    by blast
  have cnt: "count_list (rows t) r =
       (if ?P r
        then union_multiplicity (map (\<lambda>f. rows (table_of w f)) (files self)) r +
             (case df self of None \<Rightarrow> 0 | Some d \<Rightarrow> count_list (rows d) r)
        else 0)" for r
    unfolding rw
    by (cases "df self")
       (simp_all add: count_list_app count_union_rows union_multiplicity_filter_map count_list_filter)
  have st: "set (rows t) = {r \<in> set (all_rows w self). ?P r}"
    unfolding rw
    by (cases "df self") (auto simp: set_union_rows all_rows_def constituents_def)
  from g cnt st show ?thesis by blast
qed

lemma select_distinct_has:
  assumes "field \<in> set (columns t)"
  shows "\<exists>d. select_distinct field t = Inr d \<and> columns d = [field] \<and>
             set (rows d) = (\<lambda>c. [c]) ` column_set field t"
proof -
  from assms obtain i where i: "index_of field (columns t) = Some i"
    using index_of_None [of field "columns t"] by (cases "index_of field (columns t)") auto
  then show ?thesis
    by (auto simp: select_distinct_def column_set_def)
qed

lemma column_set_lacking: "field \<notin> set (columns t) \<Longrightarrow> column_set field t = {}"
  using index_of_None [of field "columns t"] by (simp add: column_set_def)

lemma distinct_union_has:
  assumes "list_all (\<lambda>t. field \<in> set (columns t)) (t # rest)"
  shows "\<exists>p. bind_e (collect (map (select_distinct field) (t # rest))) run_union = Inr p \<and>
             columns p = [field] \<and>
             set (rows p) = (\<lambda>c. [c]) ` (\<Union> (column_set field ` set (t # rest)))"
proof -
  define sd where "sd = (\<lambda>t. case select_distinct field t of Inr d \<Rightarrow> d | Inl _ \<Rightarrow> empty_frame)"
  have sd: "select_distinct field u = Inr (sd u) \<and> columns (sd u) = [field] \<and>
            set (rows (sd u)) = (\<lambda>c. [c]) ` column_set field u"
    if "field \<in> set (columns u)" for u
    using select_distinct_has [OF that] by (auto simp: sd_def)
  have c: "collect (map (select_distinct field) (t # rest)) = Inr (map sd (t # rest))"
    using assms sd by (intro collect_map_Inr) (simp add: list_all_iff)
  have all: "\<forall>u \<in> set (t # rest). columns (sd u) = [field] \<and>
            set (rows (sd u)) = (\<lambda>c. [c]) ` column_set field u"
    using assms sd by (simp add: list_all_iff)
  show ?thesis
  proof (cases rest)
    case Nil
    with c all show ?thesis by (simp add: bind_e_def run_union_def sql_union_def)
  next
    case (Cons u rest')
    have ar: "list_all (\<lambda>x. length (columns x) = length (columns (sd t))) (map sd rest)"
      using all by (simp add: list_all_iff)
    have "set (remdups (concat (map rows (map sd (t # rest))))) =
        (\<lambda>c. [c]) ` (\<Union> (column_set field ` set (t # rest)))"
      using all by (auto simp: image_iff)
    with c ar all Cons show ?thesis
      by (simp add: bind_e_def run_union_def sql_union_def)
  qed
qed

lemma one_field_set:
  assumes "columns p = [field]" "columns m = [field]"
    "set (rows p) = (\<lambda>c. [c]) ` A" "set (rows m) = (\<lambda>c. [c]) ` B"
  shows "bind_e (column_values field (pd_concat p m)) (\<lambda>vs. Inr (set (remdups vs))) = Inr (A \<union> B)"
proof -
  have r: "cell_at (relabel [field] [field] [c]) 0 = c" for c
    by (simp add: relabel_def cell_at_def)
  have "(\<lambda>r. cell_at (relabel [field] [field] r) 0) ` (set (rows p) \<union> set (rows m)) = A \<union> B"
    unfolding assms(3,4) by (simp add: image_Un image_image r)
  then show ?thesis
    using assms(1,2)
    by (simp add: column_values_def pd_concat_def Let_def bind_e_def image_Un image_image)
qed

section \<open>Construction\<close>

text \<open>
  C10. When subnetwork names are given and no source name, the constructor raises
  ValueError ("Cannot find subnetworks unless 'grn_name' is specified.") at once: it has
  made no file-system call and resolved nothing, whatever the world holds and whatever
  files and in-memory table come with the call.
\<close>

theorem subnetworks_need_grn_name:
  assumes "subnetwork_names \<noteq> []"
  shows "LightNetwork w None subnetwork_names fs d =
           ([], Inl (ValueError ''Cannot find subnetworks unless 'grn_name' is specified.''))"
  using assms by (simp add: LightNetwork_def)

theorem subnetworks_need_grn_name_witness:
  "[''liver.parquet''] \<noteq> [] \<and>
   LightNetwork \<lparr>env_GRN_PATH = None, listing = Map.empty, file_at = Map.empty\<rparr>
       None [''liver.parquet''] [''/data/extra.parquet'']
       (Some \<lparr>columns = [''regulator'', ''target'', ''weight''], rows = []\<rparr>) =
     ([], Inl (ValueError ''Cannot find subnetworks unless 'grn_name' is specified.''))"
  using subnetworks_need_grn_name [of "[''liver.parquet'']"] by simp

text \<open>
  C7. Three calls fail on their argument alone. \<open>get_all_one_field\<close> with a field other
  than regulator, target and cell_type fails its assertion (AssertionError) before it
  reads anything. The constructor without source name, files and in-memory table
  raises ValueError without a file-system call (with the message "Please provide at least
  one of ..." when no subnetwork names are given either). \<open>save\<close> with a file name that
  does not end in \<open>.parquet\<close> (letter case ignored) raises ValueError before it reads
  anything. These are the three sites the specification calls InvalidArgument.
\<close>

theorem invalid_arguments_rejected:
  "(\<not> (field \<in> {''regulator'', ''target'', ''cell_type''}) \<longrightarrow>
      get_all_one_field w self field =
        Inl (AssertionError '' Can only get unique vals for 'regulator', 'target', or 'cell_type' ''))
   \<and> (\<exists>msg. LightNetwork w None subnetwork_names [] None = ([], Inl (ValueError msg)))
   \<and> LightNetwork w None [] [] None =
        ([], Inl (ValueError ''Please provide at least one of 'grn_name' or 'files' of 'df'.''))
   \<and> (\<not> endswith (lower filename) ''.parquet'' \<longrightarrow>
        save w self filename = Inl (ValueError ''Filename must end with .parquet.''))"
proof (intro conjI impI)
  assume "\<not> (field \<in> {''regulator'', ''target'', ''cell_type''})"
  then show "get_all_one_field w self field =
      Inl (AssertionError '' Can only get unique vals for 'regulator', 'target', or 'cell_type' '')"
    by (simp add: get_all_one_field_def)
next
  show "LightNetwork w None [] [] None =
      ([], Inl (ValueError ''Please provide at least one of 'grn_name' or 'files' of 'df'.''))"
    by (simp add: LightNetwork_def resolve_files_def)
next
  show "\<exists>msg. LightNetwork w None subnetwork_names [] None = ([], Inl (ValueError msg))"
    by (cases subnetwork_names) (simp_all add: LightNetwork_def resolve_files_def)
next
  assume "\<not> endswith (lower filename) ''.parquet''"
  then show "save w self filename = Inl (ValueError ''Filename must end with .parquet.'')"
    by (simp add: save_def)
qed

theorem invalid_arguments_rejected_witness:
  "get_all_one_field \<lparr>env_GRN_PATH = None, listing = Map.empty, file_at = Map.empty\<rparr>
       \<lparr>files = [], df = Some \<lparr>columns = [''regulator'', ''target'', ''weight''], rows = []\<rparr>\<rparr>
       ''weight'' =
     Inl (AssertionError '' Can only get unique vals for 'regulator', 'target', or 'cell_type' '')
   \<and> LightNetwork \<lparr>env_GRN_PATH = None, listing = Map.empty, file_at = Map.empty\<rparr> None [] [] None =
        ([], Inl (ValueError ''Please provide at least one of 'grn_name' or 'files' of 'df'.''))
   \<and> save \<lparr>env_GRN_PATH = None, listing = Map.empty, file_at = Map.empty\<rparr>
        \<lparr>files = [], df = Some \<lparr>columns = [''regulator'', ''target'', ''weight''], rows = []\<rparr>\<rparr>
        ''edges.parquet.csv'' =
      Inl (ValueError ''Filename must end with .parquet.'')"
  using invalid_arguments_rejected [of "''weight''"
      "\<lparr>env_GRN_PATH = None, listing = Map.empty, file_at = Map.empty\<rparr>"
      "\<lparr>files = [], df = Some \<lparr>columns = [''regulator'', ''target'', ''weight''], rows = []\<rparr>\<rparr>"
      "[]" "''edges.parquet.csv''"]
  by (simp add: endswith_def lower_def lower_char_def)

text \<open>
  C5, as amended. A call of the constructor whose list of files (the explicit ones and
  those resolved from the named source) contains a path that does not exist never returns
  an instance: it raises during construction, before any query can run. When the checks
  that come first pass (a source name accompanies the subnetwork names; the in-memory
  table, if there is one, satisfies the column contract), the exception is
  FileNotFoundError for the first missing path, raised after the existence probes of the
  paths up to it and no other file-system call of this loop.
\<close>

theorem missing_file_fails_construction:
  assumes res: "resolve_files w grn_name subnetwork_names fs = (tr, Inr fs')"
    and f: "f \<in> set fs'"
    and miss: "\<not> os_path_exists w f"
  shows "(\<exists>e. snd (LightNetwork w grn_name subnetwork_names fs d) = Inl e)
       \<and> (\<not> (grn_name = None \<and> subnetwork_names \<noteq> []) \<and>
            (case d of None \<Rightarrow> True | Some t \<Rightarrow> schema_contract (columns t)) \<longrightarrow>
          (\<exists>pre g post. fs' = pre @ g # post \<and> list_all (os_path_exists w) pre \<and>
             \<not> os_path_exists w g \<and>
             LightNetwork w grn_name subnetwork_names fs d =
               (tr @ map PathExists (pre @ [g]),
                Inl (FileNotFoundError (''File '' @ g @ '' does not exist.'')))))"
proof -
  from f miss have nall: "\<not> list_all (os_path_exists w) fs'"
    by (auto simp: list_all_iff)
  from check_exists_missing [OF nall] obtain pre g post where
    h: "fs' = pre @ g # post" "list_all (os_path_exists w) pre" "\<not> os_path_exists w g"
       "check_exists w fs' =
          (map PathExists (pre @ [g]), Some (FileNotFoundError (''File '' @ g @ '' does not exist.'')))"
    by blast
  from f have ne: "fs' \<noteq> []" by auto
  have first: "\<exists>e. snd (LightNetwork w grn_name subnetwork_names fs d) = Inl e"
    using res ne h(4)
    by (cases d) (auto simp: LightNetwork_def split: option.splits)
  have second: "LightNetwork w grn_name subnetwork_names fs d =
      (tr @ map PathExists (pre @ [g]), Inl (FileNotFoundError (''File '' @ g @ '' does not exist.'')))"
    if ok: "\<not> (grn_name = None \<and> subnetwork_names \<noteq> [])"
      "(case d of None \<Rightarrow> True | Some t \<Rightarrow> schema_contract (columns t))"
  proof -
    have "(case d of None \<Rightarrow> None | Some t \<Rightarrow> check_df t) = None"
      using ok(2) by (cases d) (simp_all add: check_df_contract)
    then show ?thesis
      using ne h(4) by (simp add: LightNetwork_after_guard [OF ok(1) res])
  qed
  from first second h show ?thesis by blast
qed

text \<open>A named source with one partition that exists and one that does not.\<close>

theorem missing_file_fails_construction_witness:
  "resolve_files world_ex (Some ''testsrc'') [''a.parquet'', ''c.parquet''] [] =
     ([], Inr [path_a, ''/grn/testsrc/networks/c.parquet''])
   \<and> \<not> os_path_exists world_ex ''/grn/testsrc/networks/c.parquet''
   \<and> (\<exists>e. snd (LightNetwork world_ex (Some ''testsrc'') [''a.parquet'', ''c.parquet''] [] (Some table_m)) = Inl e)
   \<and> (\<exists>pre g post. [path_a, ''/grn/testsrc/networks/c.parquet''] = pre @ g # post \<and>
         list_all (os_path_exists world_ex) pre \<and> \<not> os_path_exists world_ex g \<and>
         LightNetwork world_ex (Some ''testsrc'') [''a.parquet'', ''c.parquet''] [] (Some table_m) =
           ([] @ map PathExists (pre @ [g]), Inl (FileNotFoundError (''File '' @ g @ '' does not exist.''))))"
proof -
  have r: "resolve_files world_ex (Some ''testsrc'') [''a.parquet'', ''c.parquet''] [] =
     ([], Inr [path_a, ''/grn/testsrc/networks/c.parquet''])"
    by (simp add: ex_defs ctor_defs)
  have m: "\<not> os_path_exists world_ex ''/grn/testsrc/networks/c.parquet''"
    by (simp add: ex_defs ctor_defs)
  have i: "''/grn/testsrc/networks/c.parquet'' \<in> set [path_a, ''/grn/testsrc/networks/c.parquet'']"
    by simp
  have s: "schema_contract (columns table_m)"
    by (simp add: schema_contract_def ex_defs)
  from missing_file_fails_construction [OF r i m, of "Some table_m"] r m s
  show ?thesis by simp
qed

text \<open>
  The error is not always FileNotFoundError: with a missing file and an in-memory table
  that violates the contract, the assertion on the table is raised, and no path has been
  probed.
\<close>

theorem missing_file_other_error_counterexample:
  "\<not> os_path_exists world_ex ''/data/missing.parquet'' \<and>
   LightNetwork world_ex None [] [''/data/missing.parquet''] (Some table_bad) =
     ([], Inl (AssertionError (''Columns must have names 'regulator', 'target', 'weight'' @ [quote])))"
  by (simp add: ex_defs ctor_defs)

text \<open>
  C6, as amended. An in-memory table that violates the column contract makes the
  constructor raise before any file is probed, provided the earlier steps pass (a source
  name accompanies the subnetwork names, and the source resolves): with the ValueError of
  the pandas comparison when the table has fewer than three columns, with AssertionError
  otherwise. Files are probed for existence only: when all of them exist, construction
  without a table succeeds whatever the files hold.
\<close>

theorem bad_table_fails_construction:
  assumes early: "\<not> (grn_name = None \<and> subnetwork_names \<noteq> [])"
    and res: "resolve_files w grn_name subnetwork_names fs = (tr, Inr fs')"
  shows "(\<not> schema_contract (columns t) \<longrightarrow>
           (\<exists>e. LightNetwork w grn_name subnetwork_names fs (Some t) = (tr, Inl e) \<and>
                (if length (columns t) < 3 then e = ValueError ''Lengths must match to compare''
                 else \<exists>msg. e = AssertionError msg)))
       \<and> (fs' \<noteq> [] \<and> list_all (os_path_exists w) fs' \<longrightarrow>
            LightNetwork w grn_name subnetwork_names fs None =
              (tr @ map PathExists fs', Inr \<lparr>files = fs', df = None\<rparr>))"
proof (intro conjI impI)
  assume "\<not> schema_contract (columns t)"
  then obtain e where e: "check_df t = Some e" using check_df_Some by blast
  have "LightNetwork w grn_name subnetwork_names fs (Some t) = (tr, Inl e)"
    using e by (simp add: LightNetwork_after_guard [OF early res])
  with check_df_error_kind [OF e]
  show "\<exists>e. LightNetwork w grn_name subnetwork_names fs (Some t) = (tr, Inl e) \<and>
          (if length (columns t) < 3 then e = ValueError ''Lengths must match to compare''
           else \<exists>msg. e = AssertionError msg)"
    by blast
next
  assume "fs' \<noteq> [] \<and> list_all (os_path_exists w) fs'"
  then show "LightNetwork w grn_name subnetwork_names fs None =
      (tr @ map PathExists fs', Inr \<lparr>files = fs', df = None\<rparr>)"
    by (simp add: LightNetwork_after_guard [OF early res] check_exists_all)
qed

theorem bad_table_fails_construction_witness:
  "\<not> (None = None \<and> ([]::string list) \<noteq> [])
   \<and> resolve_files world_ex None [] [path_a] = ([], Inr [path_a])
   \<and> \<not> schema_contract (columns table_bad)
   \<and> LightNetwork world_ex None [] [path_a] (Some table_bad) =
       ([], Inl (AssertionError (''Columns must have names 'regulator', 'target', 'weight'' @ [quote])))
   \<and> LightNetwork world_ex None [] [path_a] None =
       ([PathExists path_a], Inr \<lparr>files = [path_a], df = None\<rparr>)"
proof -
  have e: "\<not> (None = (None::string option) \<and> ([]::string list) \<noteq> [])" by simp
  have r: "resolve_files world_ex None [] [path_a] = ([], Inr [path_a])"
    by (simp add: resolve_files_def)
  from bad_table_fails_construction [OF e r, of table_bad]
  show ?thesis
    by (simp add: ex_defs ctor_defs schema_contract_def)
qed

text \<open>
  A file whose columns are not the contracted ones passes construction: the constructor
  does not open it.
\<close>

theorem file_schema_unchecked_counterexample:
  "LightNetwork world_ex None [] [path_bad] None =
     ([PathExists path_bad], Inr \<lparr>files = [path_bad], df = None\<rparr>)
   \<and> scan_file world_ex path_bad = Inr table_bad
   \<and> columns table_bad = [''source'', ''gene'', ''score'']"
  by (simp add: ex_defs ctor_defs scan_file_def quote_def)

text \<open>
  C8, as amended. \<open>copy\<close> runs the constructor on the instance's own files and table.
  In the world the instance was built in, it returns an equal instance after one existence
  probe per file. In any world: when every file still exists the result is the same; when
  one is gone it raises FileNotFoundError at the first such file; and whenever it returns
  an instance, that instance has the same files and the same table, and \<open>get_all\<close> gives
  on it what it gives on the original, the engine answering the same statement on the
  same files in the same way. (Python shares the list and the frame by reference; between
  immutable values sharing is equality.)
\<close>

theorem copy_reruns_constructor:
  assumes built: "LightNetwork w0 grn_name subnetwork_names fs d = (tr0, Inr self)"
  shows "copy w0 self = (map PathExists (files self), Inr self)
       \<and> (list_all (os_path_exists w) (files self) \<longrightarrow>
            copy w self = (map PathExists (files self), Inr self))
       \<and> (\<not> list_all (os_path_exists w) (files self) \<longrightarrow>
            (\<exists>pre g post. files self = pre @ g # post \<and>
               copy w self = (map PathExists (pre @ [g]),
                              Inl (FileNotFoundError (''File '' @ g @ '' does not exist.'')))))
       \<and> (\<forall>tr c. copy w self = (tr, Inr c) \<longrightarrow>
            files c = files self \<and> df c = df self \<and> get_all w c = get_all w self)"
proof -
  from LightNetwork_result [OF built] have
    ne: "files self \<noteq> [] \<or> df self \<noteq> None" and
    ok: "(case df self of None \<Rightarrow> None | Some t \<Rightarrow> check_df t) = None" and
    ex0: "list_all (os_path_exists w0) (files self)"
    by simp_all
  have succ: "copy w' self = (map PathExists (files self), Inr self)"
    if "list_all (os_path_exists w') (files self)" for w'
    using that ne ok
    by (auto simp: copy_def LightNetwork_def resolve_files_def check_exists_all)
  have fail: "\<exists>pre g post. files self = pre @ g # post \<and>
       copy w self = (map PathExists (pre @ [g]),
                      Inl (FileNotFoundError (''File '' @ g @ '' does not exist.'')))"
    if n: "\<not> list_all (os_path_exists w) (files self)"
  proof -
    from check_exists_missing [OF n] obtain pre g post where
      h: "files self = pre @ g # post"
         "check_exists w (files self) =
            (map PathExists (pre @ [g]), Some (FileNotFoundError (''File '' @ g @ '' does not exist.'')))"
      by blast
    from n have "files self \<noteq> []" by auto
    then have "copy w self = (map PathExists (pre @ [g]),
                      Inl (FileNotFoundError (''File '' @ g @ '' does not exist.'')))"
      using ok h(2) by (simp add: copy_def LightNetwork_def resolve_files_def)
    with h(1) show ?thesis by blast
  qed
  have same: "files c = files self \<and> df c = df self \<and> get_all w c = get_all w self"
    if "copy w self = (tr, Inr c)" for tr c
  proof (cases "list_all (os_path_exists w) (files self)")
    case True
    from succ [OF True] that show ?thesis by simp
  next
    case False
    from fail [OF False] that show ?thesis by auto
  qed
  from succ [OF ex0] succ [of w] fail same show ?thesis by blast
qed

theorem copy_reruns_constructor_witness:
  "LightNetwork world_ex (Some ''testsrc'') [] [] (Some table_m) =
     ([ListDir ''/grn/testsrc/networks'', PathExists path_a, PathExists path_b],
      Inr \<lparr>files = [path_a, path_b], df = Some table_m\<rparr>)
   \<and> copy world_ex \<lparr>files = [path_a, path_b], df = Some table_m\<rparr> =
       ([PathExists path_a, PathExists path_b], Inr \<lparr>files = [path_a, path_b], df = Some table_m\<rparr>)
   \<and> (\<exists>pre g post. [path_a, path_b] = pre @ g # post \<and>
         copy world_gone \<lparr>files = [path_a, path_b], df = Some table_m\<rparr> =
           (map PathExists (pre @ [g]), Inl (FileNotFoundError (''File '' @ g @ '' does not exist.''))))"
proof -
  have b: "LightNetwork world_ex (Some ''testsrc'') [] [] (Some table_m) =
     ([ListDir ''/grn/testsrc/networks'', PathExists path_a, PathExists path_b],
      Inr \<lparr>files = [path_a, path_b], df = Some table_m\<rparr>)"
    by (simp add: ex_defs ctor_defs)
  have g: "\<not> list_all (os_path_exists world_gone) [path_a, path_b]"
    by (simp add: ex_defs ctor_defs)
  from copy_reruns_constructor [OF b, of world_gone] b g
  show ?thesis by simp
qed

text \<open>
  \<open>copy\<close> probes the file system, and it raises where the original instance exists: after
  partition \<open>b\<close> has been deleted, copying the instance built before is a
  FileNotFoundError.
\<close>

theorem copy_probes_files_counterexample:
  "LightNetwork world_ex (Some ''testsrc'') [] [] None =
     ([ListDir ''/grn/testsrc/networks'', PathExists path_a, PathExists path_b],
      Inr \<lparr>files = [path_a, path_b], df = None\<rparr>)
   \<and> copy world_ex \<lparr>files = [path_a, path_b], df = None\<rparr> =
       ([PathExists path_a, PathExists path_b], Inr \<lparr>files = [path_a, path_b], df = None\<rparr>)
   \<and> copy world_gone \<lparr>files = [path_a, path_b], df = None\<rparr> =
       ([PathExists path_a, PathExists path_b],
        Inl (FileNotFoundError ''File /grn/testsrc/networks/b.parquet does not exist.''))"
  by (simp add: ex_defs ctor_defs)

section \<open>Queries\<close>

text \<open>
  C4. When every file of the network is readable and the files agree in their number of
  columns (so that the UNION binds), \<open>get_all\<close> and \<open>get_num_edges\<close> both return, and
  the number is the row count of the table. This holds with and without content shared
  between constituents, since both queries run the same UNION.
\<close>

theorem num_edges_is_row_count:
  assumes r: "list_all (readable w) (files self)"
    and a: "list_all (\<lambda>f. length (columns (table_of w f)) =
                          length (columns (table_of w (hd (files self))))) (files self)"
  shows "\<exists>t. get_all w self = Inr t \<and> get_num_edges w self = Inr (int (length (rows t)))"
  using r a by (rule get_num_edges_get_all)

theorem num_edges_is_row_count_witness:
  "list_all (readable world_ex) [path_a, path_b]
   \<and> get_all world_ex \<lparr>files = [path_a, path_b], df = Some table_m\<rparr> =
       Inr \<lparr>columns = contract_columns,
            rows = [[Str ''TF1'', Str ''G1'', Num (1/2)], [Str ''TF2'', Str ''G1'', Num (9/10)],
                    [Str ''TF3'', Str ''G2'', Num 1]]\<rparr>
   \<and> get_num_edges world_ex \<lparr>files = [path_a, path_b], df = Some table_m\<rparr> = Inr 3"
  using num_edges_is_row_count [of world_ex "\<lparr>files = [path_a, path_b], df = Some table_m\<rparr>"]
  by (simp add: ex_defs q_defs)

text \<open>
  C1, as amended. For a uniform network, \<open>get_all\<close> returns each row as often as the
  UNION over the files returns it (its count in the file when there is one file; once
  when there are two or more files and any of them holds it) plus its count in the
  in-memory table, and \<open>get_num_edges\<close> is the number of rows of that result. So a row
  held once by a file and once by the in-memory table, or twice by the in-memory table,
  is returned and counted twice; a row held by each of two files is returned and counted
  once.
\<close>

theorem union_collapses_file_duplicates:
  assumes u: "uniform w self cols"
  shows "\<exists>t. get_all w self = Inr t
           \<and> (\<forall>r. count_list (rows t) r =
                 union_multiplicity (map (\<lambda>f. rows (table_of w f)) (files self)) r +
                 (case df self of None \<Rightarrow> 0 | Some d \<Rightarrow> count_list (rows d) r))
           \<and> get_num_edges w self = Inr (int (length (rows t)))"
proof -
  have sel: "Inr t = (Inr (t\<lparr>rows := filter (\<lambda>_. True) (rows t)\<rparr>) :: error + table)" for t
    by simp
  have "\<exists>t. get_all w self = Inr t \<and>
      rows t = union_rows (map (\<lambda>f. filter (\<lambda>_. True) (rows (table_of w f))) (files self)) @
               (case df self of None \<Rightarrow> [] | Some d \<Rightarrow> filter (\<lambda>_. True) (rows d))"
    unfolding get_all_def
    using row_query_uniform [where sel = Inr and P = "\<lambda>_. True", OF u sel] by blast
  then obtain t where
    g: "get_all w self = Inr t" and
    rw0: "rows t = union_rows (map (\<lambda>f. filter (\<lambda>_. True) (rows (table_of w f))) (files self)) @
               (case df self of None \<Rightarrow> [] | Some d \<Rightarrow> filter (\<lambda>_. True) (rows d))"
    by blast
  have rw: "rows t = union_rows (map (\<lambda>f. rows (table_of w f)) (files self)) @
                  (case df self of None \<Rightarrow> [] | Some d \<Rightarrow> rows d)"
    using rw0 by (cases "df self") simp_all
  have cnt: "count_list (rows t) r =
       union_multiplicity (map (\<lambda>f. rows (table_of w f)) (files self)) r +
       (case df self of None \<Rightarrow> 0 | Some d \<Rightarrow> count_list (rows d) r)" for r
    by (cases "df self") (simp_all add: rw count_list_app count_union_rows)
  from get_num_edges_get_all [OF uniform_arity [OF u]] g
  have "get_num_edges w self = Inr (int (length (rows t)))" by auto
  with g cnt show ?thesis by blast
qed

text \<open>Partition \<open>a\<close>, its copy, and an in-memory table with the same row.\<close>

theorem union_collapses_file_duplicates_witness:
  "uniform world_ex \<lparr>files = [path_a, path_mirror], df = Some table_a\<rparr> contract_columns
   \<and> get_all world_ex \<lparr>files = [path_a, path_mirror], df = Some table_a\<rparr> =
       Inr \<lparr>columns = contract_columns,
            rows = [[Str ''TF1'', Str ''G1'', Num (1/2)], [Str ''TF1'', Str ''G1'', Num (1/2)]]\<rparr>
   \<and> get_num_edges world_ex \<lparr>files = [path_a, path_mirror], df = Some table_a\<rparr> = Inr 2"
  using union_collapses_file_duplicates
    [of world_ex "\<lparr>files = [path_a, path_mirror], df = Some table_a\<rparr>" contract_columns]
  by (simp add: ex_defs q_defs)

text \<open>
  The same edge in two files is returned once and counted once: the union over the files
  is a set union.
\<close>

theorem bag_union_counterexample:
  "LightNetwork world_ex None [] [path_a, path_mirror] None =
     ([PathExists path_a, PathExists path_mirror], Inr \<lparr>files = [path_a, path_mirror], df = None\<rparr>)
   \<and> scan_file world_ex path_a = Inr table_a
   \<and> scan_file world_ex path_mirror = Inr table_a
   \<and> rows table_a = [[Str ''TF1'', Str ''G1'', Num (1/2)]]
   \<and> get_all world_ex \<lparr>files = [path_a, path_mirror], df = None\<rparr> =
       Inr \<lparr>columns = contract_columns, rows = [[Str ''TF1'', Str ''G1'', Num (1/2)]]\<rparr>
   \<and> get_num_edges world_ex \<lparr>files = [path_a, path_mirror], df = None\<rparr> = Inr 1"
  by (simp add: ex_defs ctor_defs q_defs)

text \<open>
  C2, as amended. For a uniform network whose columns include target and regulator, and
  a value without a single quote, \<open>get_regulators\<close> returns a table whose rows are, as a
  set, exactly the rows of the constituents whose target is the value; each of them is
  returned as often as \<open>get_all\<close> returns it; and when no row of a constituent has that
  target, the result has no rows. \<open>get_targets\<close> does the same with the regulator column.
\<close>

theorem where_queries_on_uniform_networks:
  assumes u: "uniform w self cols"
    and q: "quote \<notin> set v"
    and i: "index_of ''target'' cols = Some i"
    and j: "index_of ''regulator'' cols = Some j"
  shows "(\<exists>t. get_regulators w self v = Inr t
            \<and> set (rows t) = {r \<in> set (all_rows w self). cell_at r i = Str v}
            \<and> (\<forall>r. count_list (rows t) r =
                  (if cell_at r i = Str v
                   then union_multiplicity (map (\<lambda>f. rows (table_of w f)) (files self)) r +
                        (case df self of None \<Rightarrow> 0 | Some d \<Rightarrow> count_list (rows d) r)
                   else 0))
            \<and> ((\<forall>r \<in> set (all_rows w self). cell_at r i \<noteq> Str v) \<longrightarrow> rows t = []))
       \<and> (\<exists>t. get_targets w self v = Inr t
            \<and> set (rows t) = {r \<in> set (all_rows w self). cell_at r j = Str v}
            \<and> (\<forall>r. count_list (rows t) r =
                  (if cell_at r j = Str v
                   then union_multiplicity (map (\<lambda>f. rows (table_of w f)) (files self)) r +
                        (case df self of None \<Rightarrow> 0 | Some d \<Rightarrow> count_list (rows d) r)
                   else 0))
            \<and> ((\<forall>r \<in> set (all_rows w self). cell_at r j \<noteq> Str v) \<longrightarrow> rows t = []))"
proof (rule conjI)
  from where_query_uniform [OF u q i] obtain t where
    t: "get_regulators w self v = Inr t"
       "set (rows t) = {r \<in> set (all_rows w self). cell_at r i = Str v}"
       "\<forall>r. count_list (rows t) r =
                  (if cell_at r i = Str v
                   then union_multiplicity (map (\<lambda>f. rows (table_of w f)) (files self)) r +
                        (case df self of None \<Rightarrow> 0 | Some d \<Rightarrow> count_list (rows d) r)
                   else 0)"
    unfolding get_regulators_def by blast
  have "rows t = []" if "\<forall>r \<in> set (all_rows w self). cell_at r i \<noteq> Str v"
  proof -
    from t(2) that have "set (rows t) = {}" by auto
    then show ?thesis by simp
  qed
  with t show "\<exists>t. get_regulators w self v = Inr t
            \<and> set (rows t) = {r \<in> set (all_rows w self). cell_at r i = Str v}
            \<and> (\<forall>r. count_list (rows t) r =
                  (if cell_at r i = Str v
                   then union_multiplicity (map (\<lambda>f. rows (table_of w f)) (files self)) r +
                        (case df self of None \<Rightarrow> 0 | Some d \<Rightarrow> count_list (rows d) r)
                   else 0))
            \<and> ((\<forall>r \<in> set (all_rows w self). cell_at r i \<noteq> Str v) \<longrightarrow> rows t = [])"
    by blast
next
  from where_query_uniform [OF u q j] obtain t where
    t: "get_targets w self v = Inr t"
       "set (rows t) = {r \<in> set (all_rows w self). cell_at r j = Str v}"
       "\<forall>r. count_list (rows t) r =
                  (if cell_at r j = Str v
                   then union_multiplicity (map (\<lambda>f. rows (table_of w f)) (files self)) r +
                        (case df self of None \<Rightarrow> 0 | Some d \<Rightarrow> count_list (rows d) r)
                   else 0)"
    unfolding get_targets_def by blast
  have "rows t = []" if "\<forall>r \<in> set (all_rows w self). cell_at r j \<noteq> Str v"
  proof -
    from t(2) that have "set (rows t) = {}" by auto
    then show ?thesis by simp
  qed
  with t show "\<exists>t. get_targets w self v = Inr t
            \<and> set (rows t) = {r \<in> set (all_rows w self). cell_at r j = Str v}
            \<and> (\<forall>r. count_list (rows t) r =
                  (if cell_at r j = Str v
                   then union_multiplicity (map (\<lambda>f. rows (table_of w f)) (files self)) r +
                        (case df self of None \<Rightarrow> 0 | Some d \<Rightarrow> count_list (rows d) r)
                   else 0))
            \<and> ((\<forall>r \<in> set (all_rows w self). cell_at r j \<noteq> Str v) \<longrightarrow> rows t = [])"
    by blast
qed

theorem where_queries_on_uniform_networks_witness:
  "uniform world_ex \<lparr>files = [path_a, path_b], df = Some table_m\<rparr> contract_columns
   \<and> \<not> (quote \<in> set ''G1'')
   \<and> index_of ''target'' contract_columns = Some 1
   \<and> index_of ''regulator'' contract_columns = Some 0
   \<and> get_regulators world_ex \<lparr>files = [path_a, path_b], df = Some table_m\<rparr> ''G1'' =
       Inr \<lparr>columns = contract_columns,
            rows = [[Str ''TF1'', Str ''G1'', Num (1/2)], [Str ''TF2'', Str ''G1'', Num (9/10)]]\<rparr>
   \<and> get_targets world_ex \<lparr>files = [path_a, path_b], df = Some table_m\<rparr> ''G1'' =
       Inr \<lparr>columns = contract_columns, rows = []\<rparr>"
  using where_queries_on_uniform_networks
    [of world_ex "\<lparr>files = [path_a, path_b], df = Some table_m\<rparr>" contract_columns "''G1''" 1 0]
  by (simp add: ex_defs q_defs)

text \<open>
  Two partitions that both satisfy the column contract, one with and one without the
  cell_type column, make a network on which neither query returns: the UNION does not
  bind. And on partition \<open>a\<close> with its copy, the edge with target G1 that both hold is
  returned once.
\<close>

theorem where_query_mixed_columns_counterexample:
  "LightNetwork world_ex None [] [path_a, path_typed] None =
     ([PathExists path_a, PathExists path_typed], Inr \<lparr>files = [path_a, path_typed], df = None\<rparr>)
   \<and> schema_contract (columns table_a) \<and> schema_contract (columns table_typed)
   \<and> get_regulators world_ex \<lparr>files = [path_a, path_typed], df = None\<rparr> ''G1'' =
       Inl (BinderException ''Set operations can only apply to expressions with the same number of result columns'')
   \<and> get_targets world_ex \<lparr>files = [path_a, path_typed], df = None\<rparr> ''TF1'' =
       Inl (BinderException ''Set operations can only apply to expressions with the same number of result columns'')
   \<and> get_regulators world_ex \<lparr>files = [path_a, path_typed], df = None\<rparr> ''absent'' =
       Inl (BinderException ''Set operations can only apply to expressions with the same number of result columns'')
   \<and> get_regulators world_ex \<lparr>files = [path_a, path_mirror], df = None\<rparr> ''G1'' =
       Inr \<lparr>columns = contract_columns, rows = [[Str ''TF1'', Str ''G1'', Num (1/2)]]\<rparr>"
  by (simp add: ex_defs ctor_defs q_defs schema_contract_def)

text \<open>
  C3. For each of the three fields, when every file is readable, \<open>get_all_one_field\<close>
  returns the set that is the union, over all constituents, of the values of that column.
  A constituent without the column contributes nothing and raises nothing. The result is
  a set: no value occurs in it twice, however often the constituents hold it.
\<close>

theorem one_field_is_union_of_column_sets:
  assumes fld: "field \<in> {''regulator'', ''target'', ''cell_type''}"
    and rd: "list_all (readable w) (files self)"
  shows "get_all_one_field w self field =
           Inr (\<Union> (column_set field ` set (constituents w self)))"
proof -
  let ?ts = "map (table_of w) (files self)"
  let ?kept = "filter (\<lambda>t. field \<in> set (columns t)) ?ts"
  let ?A = "\<Union> (column_set field ` set ?ts)"
  let ?B = "case df self of None \<Rightarrow> {} | Some d \<Rightarrow> column_set field d"
  let ?none = "\<lparr>columns = [field], rows = []\<rparr>"
  have keptA: "\<Union> (column_set field ` set ?kept) = ?A"
    using column_set_lacking by auto
  have "\<exists>p. (if length (files self) > 0
              then bind_e (collect (map (scan_file w) (files self)))
                     (\<lambda>ts. case filter (\<lambda>t. field \<in> set (columns t)) ts of
                              [] \<Rightarrow> Inr ?none
                            | t # rest \<Rightarrow>
                                bind_e (collect (map (select_distinct field) (t # rest)))
                                  run_union)
              else Inr ?none) = Inr p \<and> columns p = [field] \<and> set (rows p) = (\<lambda>c. [c]) ` ?A"
  proof (cases "files self = []")
    case True
    then show ?thesis by simp
  next
    case False
    show ?thesis
    proof (cases ?kept)
      case Nil
      with keptA have "?A = {}" by simp
      with Nil False show ?thesis
        by (simp add: collect_scan_tables [OF rd] bind_e_def)
    next
      case (Cons t rest)
      have "\<forall>u \<in> set ?kept. field \<in> set (columns u)" by simp
      then have "list_all (\<lambda>t. field \<in> set (columns t)) (t # rest)"
        unfolding Cons by (simp add: list_all_iff)
      from distinct_union_has [OF this] Cons keptA False show ?thesis
        by (simp add: collect_scan_tables [OF rd] bind_e_def)
    qed
  qed
  then obtain p where p:
    "(if length (files self) > 0
              then bind_e (collect (map (scan_file w) (files self)))
                     (\<lambda>ts. case filter (\<lambda>t. field \<in> set (columns t)) ts of
                              [] \<Rightarrow> Inr ?none
                            | t # rest \<Rightarrow>
                                bind_e (collect (map (select_distinct field) (t # rest)))
                                  run_union)
              else Inr ?none) = Inr p" "columns p = [field]" "set (rows p) = (\<lambda>c. [c]) ` ?A"
    by blast
  have "\<exists>m. (case df self of
               None \<Rightarrow> Inr ?none
             | Some d \<Rightarrow> if field \<in> set (columns d) then select_distinct field d else Inr ?none)
            = Inr m \<and> columns m = [field] \<and> set (rows m) = (\<lambda>c. [c]) ` ?B"
  proof (cases "df self")
    case None
    then show ?thesis by simp
  next
    case (Some d)
    show ?thesis
    proof (cases "field \<in> set (columns d)")
      case True
      from select_distinct_has [OF True] Some True show ?thesis by auto
    next
      case False
      with Some column_set_lacking [OF False] show ?thesis by simp
    qed
  qed
  then obtain m where m:
    "(case df self of
               None \<Rightarrow> Inr ?none
             | Some d \<Rightarrow> if field \<in> set (columns d) then select_distinct field d else Inr ?none)
            = Inr m" "columns m = [field]" "set (rows m) = (\<lambda>c. [c]) ` ?B"
    by blast
  have AB: "?A \<union> ?B = \<Union> (column_set field ` set (constituents w self))"
    by (cases "df self") (auto simp: constituents_def)
  have "get_all_one_field w self field = Inr (?A \<union> ?B)"
    unfolding get_all_one_field_def p(1) m(1)
    using fld one_field_set [OF p(2) m(2) p(3) m(3)]
    by (simp add: bind_e_def)
  with AB show ?thesis by simp
qed

text \<open>
  A network of a partition without cell_type, one with it, and an in-memory table without
  it: the cell types are those of the one partition, and the regulators come from all.
\<close>

theorem one_field_is_union_of_column_sets_witness:
  "''cell_type'' \<in> {''regulator'', ''target'', ''cell_type''}
   \<and> list_all (readable world_ex) [path_a, path_typed]
   \<and> get_all_one_field world_ex \<lparr>files = [path_a, path_typed], df = Some table_m\<rparr> ''cell_type'' =
       Inr {Str ''liver''}"
  using one_field_is_union_of_column_sets
    [of "''cell_type''" world_ex "\<lparr>files = [path_a, path_typed], df = Some table_m\<rparr>"]
  by (simp add: ex_defs q_defs column_set_def)

section \<open>The integrity check\<close>

text \<open>
  C9. \<open>validate_grn\<close> does not reach its comparison of the two counts: on any pandas
  DataFrame the expression \<open>grn_df[:, "regulator"]\<close> raises InvalidIndexError, so the
  function neither raises its ValueError nor returns True.
\<close>

theorem validate_grn_raises_on_every_table:
  "validate_grn grn_name subnetwork_name (Some d) =
     Inl (InvalidIndexError (''(slice(None, None, None), '' @ [quote] @ ''regulator'' @ [quote] @ '')''))"
  by (simp add: validate_grn_def bind_e_def frame_getitem_slice_def)

end
